theory Spec2Isabelle
  imports Main "HOL-Library.Word"
begin

unbundle bit_operations_syntax

section \<open>Bytes, errors and outcomes\<close>

text \<open>
  A Go \<^verbatim>\<open>[]byte\<close> is a list of 8-bit words. A nil slice and an empty slice are both the
  empty list: \<^verbatim>\<open>len\<close> and \<^verbatim>\<open>bytes.Equal\<close>, the only operations the code applies to
  them, do not tell them apart.
\<close>

type_synonym byte = "8 word"
type_synonym bytes = "byte list"

datatype error =
    ErrValueTooShort
  | EOF
  | ErrUnexpectedEOF
  | ReaderError
  | EncryptionError
  | DecryptionError

text \<open>\<^verbatim>\<open>bytes.Equal(a, b)\<close>: same length and same content.\<close>

definition bytes_Equal :: "bytes \<Rightarrow> bytes \<Rightarrow> bool" where
  "bytes_Equal a b = (a = b)"

section \<open>libolmpickle\<close>

text \<open>
  The key types call the package \<^verbatim>\<open>libolmpickle\<close> (the \<^verbatim>\<open>Encoder\<close> and the
  \<^verbatim>\<open>Unpickle*\<close> functions), whose source is not among the files verified here. Each of
  its operations is modelled from what the spec says of the pickle codec.
\<close>

text \<open>
  Modelled from the spec: the \<^verbatim>\<open>Encoder\<close> type of \<^verbatim>\<open>libolmpickle\<close> is missing. The spec
  calls it an accumulating byte sink: it is the list of the bytes written so far.
\<close>

type_synonym Encoder = bytes

text \<open>
  Modelled from the spec: \<^verbatim>\<open>Encoder.Write\<close> is missing. The spec has a field appended to
  the sink.
\<close>

definition Write :: "Encoder \<Rightarrow> bytes \<Rightarrow> Encoder" where
  "Write enc bs = enc @ bs"

text \<open>
  Modelled from the spec: \<^verbatim>\<open>Encoder.WriteEmptyBytes\<close> is missing. The spec has an absent
  field zero-filled to its nominal width: \<open>n\<close> zero bytes are appended.
\<close>

definition WriteEmptyBytes :: "Encoder \<Rightarrow> nat \<Rightarrow> Encoder" where
  "WriteEmptyBytes enc n = enc @ replicate n 0"

text \<open>
  Modelled from the spec: \<^verbatim>\<open>Encoder.WriteUInt32\<close> is missing. The spec encodes the id as
  4 bytes, big-endian.
\<close>

definition WriteUInt32 :: "Encoder \<Rightarrow> 32 word \<Rightarrow> Encoder" where
  "WriteUInt32 enc v =
     enc @ [ucast (drop_bit 24 v), ucast (drop_bit 16 v), ucast (drop_bit 8 v), ucast v]"

text \<open>
  Modelled from the spec: \<^verbatim>\<open>Encoder.WriteBool\<close> is missing. The spec encodes the flag as
  a 1-byte boolean: 1 for true, 0 for false.
\<close>

definition WriteBool :: "Encoder \<Rightarrow> bool \<Rightarrow> Encoder" where
  "WriteBool enc b = enc @ [if b then 1 else 0]"

text \<open>
  Modelled from the spec: the test of \<^verbatim>\<open>libolmpickle\<close> for a zero-filled field is missing.
  The spec has an absent field written as zero bytes of the field's width; a field is
  zero-filled when each of its bytes is zero.
\<close>

definition isZeroByteSlice :: "bytes \<Rightarrow> bool" where
  "isZeroByteSlice b = (b = replicate (length b) 0)"

text \<open>
  Modelled from the spec: \<^verbatim>\<open>libolmpickle.UnpickleBytes\<close> is missing. The spec has a field
  read from offset 0 of the slice, the number of bytes consumed reported, and a failure
  when fewer bytes remain than the width requires. An absent field is written as zero
  bytes, a pickled value must unpickle to an equal one, and an absent key is never equal
  to a present one: so a zero-filled field is read back as the absent (nil) value, its
  width still being consumed. The tests of the package's key pairs
  (\<^verbatim>\<open>TestEd25519PicklePubKeyOnly\<close>, \<^verbatim>\<open>TestEd25519PicklePrivKeyOnly\<close>) require the same:
  a pair pickled with a nil half is unpickled with a nil half.
\<close>

definition UnpickleBytes :: "bytes \<Rightarrow> nat \<Rightarrow> error + (bytes \<times> nat)" where
  "UnpickleBytes v n =
     (if length v < n then Inl ErrValueTooShort
      else let resp = take n v
           in if isZeroByteSlice resp then Inr ([], n) else Inr (resp, n))"

text \<open>
  Modelled from the spec: \<^verbatim>\<open>libolmpickle.UnpickleUInt32\<close> is missing. It reads the 4-byte
  big-endian id and fails on fewer than 4 bytes.
\<close>

definition UnpickleUInt32 :: "bytes \<Rightarrow> error + (32 word \<times> nat)" where
  "UnpickleUInt32 v =
     (if length v < 4 then Inl ErrValueTooShort
      else Inr (push_bit 24 (ucast (v ! 0)) OR push_bit 16 (ucast (v ! 1))
                OR push_bit 8 (ucast (v ! 2)) OR ucast (v ! 3), 4))"

text \<open>
  Modelled from the spec: \<^verbatim>\<open>libolmpickle.UnpickleBool\<close> is missing. It reads the 1-byte
  flag, any non-zero byte being true, and fails on an empty slice.
\<close>

definition UnpickleBool :: "bytes \<Rightarrow> error + (bool \<times> nat)" where
  "UnpickleBool v = (if length v < 1 then Inl ErrValueTooShort else Inr (v ! 0 \<noteq> 0, 1))"

section \<open>Curve25519 key pairs\<close>

definition Curve25519PrivateKeyLength :: nat where
  "Curve25519PrivateKeyLength = 32"

definition Curve25519PublicKeyLength :: nat where
  "Curve25519PublicKeyLength = 32"

type_synonym Curve25519PrivateKey = bytes
type_synonym Curve25519PublicKey = bytes

record Curve25519KeyPair =
  PrivateKey :: Curve25519PrivateKey
  PublicKey :: Curve25519PublicKey

definition Curve25519PrivateKey_Equal :: "Curve25519PrivateKey \<Rightarrow> Curve25519PrivateKey \<Rightarrow> bool" where
  "Curve25519PrivateKey_Equal c x = bytes_Equal c x"

definition Curve25519PublicKey_Equal :: "Curve25519PublicKey \<Rightarrow> Curve25519PublicKey \<Rightarrow> bool" where
  "Curve25519PublicKey_Equal c x = bytes_Equal c x"

definition Curve25519PublicKey_PickleLibOlm :: "Curve25519PublicKey \<Rightarrow> Encoder \<Rightarrow> Encoder" where
  "Curve25519PublicKey_PickleLibOlm c encoder =
     (if length c = Curve25519PublicKeyLength then Write encoder c
      else WriteEmptyBytes encoder Curve25519PublicKeyLength)"

text \<open>
  The unpickle methods have a pointer receiver and return \<^verbatim>\<open>(int, error)\<close>. The model
  takes the receiver's value before the call and returns its value after the call with the
  two results, so that a field assigned before a later failure stays assigned.
\<close>

definition Curve25519PublicKey_UnpickleLibOlm ::
  "Curve25519PublicKey \<Rightarrow> bytes \<Rightarrow> Curve25519PublicKey \<times> nat \<times> error option" where
  "Curve25519PublicKey_UnpickleLibOlm c v =
     (case UnpickleBytes v Curve25519PublicKeyLength of
        Inl err \<Rightarrow> (c, 0, Some err)
      | Inr (unpickled, readBytes) \<Rightarrow> (unpickled, readBytes, None))"

definition Curve25519KeyPair_PickleLibOlm :: "Curve25519KeyPair \<Rightarrow> Encoder \<Rightarrow> Encoder" where
  "Curve25519KeyPair_PickleLibOlm c encoder =
     (let encoder = Curve25519PublicKey_PickleLibOlm (PublicKey c) encoder
      in if length (PrivateKey c) = Curve25519PrivateKeyLength then Write encoder (PrivateKey c)
         else WriteEmptyBytes encoder Curve25519PrivateKeyLength)"

text \<open>
  \<^verbatim>\<open>value[read:]\<close> panics when \<^verbatim>\<open>read > len(value)\<close>. Here \<^verbatim>\<open>read\<close> is the count of a
  successful \<^verbatim>\<open>UnpickleBytes\<close>, which is at most the length, so the slice is \<open>drop\<close>.
\<close>

definition Curve25519KeyPair_UnpickleLibOlm ::
  "Curve25519KeyPair \<Rightarrow> bytes \<Rightarrow> Curve25519KeyPair \<times> nat \<times> error option" where
  "Curve25519KeyPair_UnpickleLibOlm c v =
     (case Curve25519PublicKey_UnpickleLibOlm (PublicKey c) v of
        (pub, read, Some err) \<Rightarrow> (c\<lparr>PublicKey := pub\<rparr>, 0, Some err)
      | (pub, read, None) \<Rightarrow>
          (case UnpickleBytes (drop read v) Curve25519PrivateKeyLength of
             Inl err \<Rightarrow> (c\<lparr>PublicKey := pub\<rparr>, read, Some err)
           | Inr (privKey, readPriv) \<Rightarrow>
               (c\<lparr>PublicKey := pub, PrivateKey := privKey\<rparr>, read + readPriv, None)))"

text \<open>
  \<^verbatim>\<open>curve25519.X25519(scalar, point)\<close> belongs to the Go cryptography library
  (\<^verbatim>\<open>golang.org/x/crypto\<close>); it returns \<^verbatim>\<open>([]byte, error)\<close> and is a parameter here. The
  methods below forward its result and its error unchanged.
\<close>

type_synonym x25519_fn = "bytes \<Rightarrow> bytes \<Rightarrow> error + bytes"

definition Basepoint :: bytes where
  "Basepoint = 9 # replicate 31 0"

definition Curve25519PrivateKey_PubKey :: "x25519_fn \<Rightarrow> Curve25519PrivateKey \<Rightarrow> error + bytes" where
  "Curve25519PrivateKey_PubKey X25519 c = X25519 c Basepoint"

definition Curve25519PrivateKey_SharedSecret ::
  "x25519_fn \<Rightarrow> Curve25519PrivateKey \<Rightarrow> Curve25519PublicKey \<Rightarrow> error + bytes" where
  "Curve25519PrivateKey_SharedSecret X25519 c pubKey = X25519 c pubKey"

definition Curve25519KeyPair_SharedSecret ::
  "x25519_fn \<Rightarrow> Curve25519KeyPair \<Rightarrow> Curve25519PublicKey \<Rightarrow> error + bytes" where
  "Curve25519KeyPair_SharedSecret X25519 c pubKey =
     Curve25519PrivateKey_SharedSecret X25519 (PrivateKey c) pubKey"

definition Curve25519GenerateFromPrivate ::
  "x25519_fn \<Rightarrow> Curve25519PrivateKey \<Rightarrow> error + Curve25519KeyPair" where
  "Curve25519GenerateFromPrivate X25519 private =
     (case Curve25519PrivateKey_PubKey X25519 private of
        Inl err \<Rightarrow> Inl err
      | Inr publicKey \<Rightarrow> Inr \<lparr>PrivateKey = private, PublicKey = publicKey\<rparr>)"

section \<open>One-time keys\<close>

record OneTimeKey =
  ID :: "32 word"
  Published :: bool
  Key :: Curve25519KeyPair

definition OneTimeKey_Equal :: "OneTimeKey \<Rightarrow> OneTimeKey \<Rightarrow> bool" where
  "OneTimeKey_Equal otk s =
     (if ID otk \<noteq> ID s then False
      else if Published otk \<noteq> Published s then False
      else if \<not> Curve25519PrivateKey_Equal (PrivateKey (Key otk)) (PrivateKey (Key s)) then False
      else if \<not> Curve25519PublicKey_Equal (PublicKey (Key otk)) (PublicKey (Key s)) then False
      else True)"

definition OneTimeKey_PickleLibOlm :: "OneTimeKey \<Rightarrow> Encoder \<Rightarrow> Encoder" where
  "OneTimeKey_PickleLibOlm c encoder =
     (let encoder = WriteUInt32 encoder (ID c);
          encoder = WriteBool encoder (Published c)
      in Curve25519KeyPair_PickleLibOlm (Key c) encoder)"

definition OneTimeKey_UnpickleLibOlm ::
  "OneTimeKey \<Rightarrow> bytes \<Rightarrow> OneTimeKey \<times> nat \<times> error option" where
  "OneTimeKey_UnpickleLibOlm c v =
     (let totalReadBytes = 0 in
      case UnpickleUInt32 v of
        Inl err \<Rightarrow> (c, 0, Some err)
      | Inr (id32, readBytes) \<Rightarrow>
          (let totalReadBytes = totalReadBytes + readBytes;
               c = c\<lparr>ID := id32\<rparr>
           in case UnpickleBool (drop totalReadBytes v) of
                Inl err \<Rightarrow> (c, 0, Some err)
              | Inr (published, readBytes) \<Rightarrow>
                  (let totalReadBytes = totalReadBytes + readBytes;
                       c = c\<lparr>Published := published\<rparr>
                   in case Curve25519KeyPair_UnpickleLibOlm (Key c) (drop totalReadBytes v) of
                        (k, readBytes, Some err) \<Rightarrow> (c\<lparr>Key := k\<rparr>, 0, Some err)
                      | (k, readBytes, None) \<Rightarrow>
                          (c\<lparr>Key := k\<rparr>, totalReadBytes + readBytes, None))))"

section \<open>The AES-SHA256 cipher\<close>

subsection \<open>Primitives taken as parameters\<close>

text \<open>
  An \<^verbatim>\<open>io.Reader\<close> is modelled by what a consumer can observe of it: the bytes it
  delivers before its first error, and that error.
\<close>

type_synonym Reader = "bytes \<times> error"

text \<open>
  \<^verbatim>\<open>io.ReadFull(r, buf)\<close> fills \<^verbatim>\<open>buf\<close> from the reader and returns the number of bytes
  copied. The error is nil exactly when the buffer was filled; a reader that ends with
  \<^verbatim>\<open>EOF\<close> after some bytes gives \<^verbatim>\<open>ErrUnexpectedEOF\<close>. Bytes of the buffer that were
  not reached keep their content.
\<close>

definition ReadFull :: "Reader \<Rightarrow> bytes \<Rightarrow> bytes \<times> nat \<times> error option" where
  "ReadFull r buf =
     (case r of (d, e) \<Rightarrow>
        if length buf \<le> length d then (take (length buf) d, length buf, None)
        else (d @ drop (length d) buf, length d,
              Some (if e = EOF \<and> d \<noteq> [] then ErrUnexpectedEOF else e)))"

text \<open>
  \<^verbatim>\<open>crypto.HKDFSHA256(input, salt, info)\<close> and \<^verbatim>\<open>crypto.HMACSHA256(key, input)\<close> wrap the
  HKDF and HMAC of the Go libraries, and \<^verbatim>\<open>aescbc\<close> uses the AES block cipher of the
  standard library. None of them is defined in the files verified here; the functions
  below take them as parameters: \<open>HKDFSHA256\<close> returns a reader, \<open>HMACSHA256\<close> a tag,
  and the block cipher is a pair of functions from a key and a block to a block.
\<close>

type_synonym hkdf_fn = "bytes \<Rightarrow> bytes \<Rightarrow> bytes \<Rightarrow> Reader"
type_synonym hmac_fn = "bytes \<Rightarrow> bytes \<Rightarrow> bytes"
type_synonym block_fn = "bytes \<Rightarrow> bytes \<Rightarrow> bytes"

subsection \<open>aescbc\<close>

text \<open>
  The cipher calls the package \<^verbatim>\<open>aescbc\<close> (\<^verbatim>\<open>Encrypt\<close> and \<^verbatim>\<open>Decrypt\<close>), whose source
  is not among the files verified here. The spec describes encryption as block-cipher
  encryption in chained-block mode with the derived key and IV, the plaintext being padded
  to the block size by a standard reversible padding scheme, failing for a malformed key
  length; and decryption as its inverse, failing on invalid padding or on a ciphertext
  whose length is not a multiple of the block size.
\<close>

text \<open>Modelled from the spec: the block size of the cipher (\<^verbatim>\<open>aes.BlockSize\<close>), 16 bytes,
  the width of the derived IV.\<close>

definition BlockSize :: nat where
  "BlockSize = 16"

text \<open>Modelled from the spec: the bytewise exclusive or of two blocks, the chaining
  operation of the chained-block mode.\<close>

definition xor_bytes :: "bytes \<Rightarrow> bytes \<Rightarrow> bytes" where
  "xor_bytes a b = map2 (XOR) a b"

text \<open>
  Modelled from the spec: the padding function is missing. The standard reversible scheme
  is PKCS#7: between 1 and \<open>blockSize\<close> bytes are appended, each holding their number.
\<close>

definition pkcs7_Pad :: "bytes \<Rightarrow> nat \<Rightarrow> bytes" where
  "pkcs7_Pad d blockSize =
     (let padding = blockSize - length d mod blockSize
      in d @ replicate padding (of_nat padding))"

text \<open>
  Modelled from the spec: the unpadding function is missing. It removes the padding that
  the last byte announces, and fails with a decryption error when the padding is invalid.
\<close>

definition pkcs7_Unpad :: "bytes \<Rightarrow> error + bytes" where
  "pkcs7_Unpad d =
     (if d = [] then Inl DecryptionError
      else let unpadding = unat (last d) in
        if unpadding = 0 \<or> BlockSize < unpadding \<or> length d < unpadding
           \<or> drop (length d - unpadding) d \<noteq> replicate unpadding (last d)
        then Inl DecryptionError
        else Inr (take (length d - unpadding) d))"

text \<open>
  Modelled from the spec: chained-block encryption is missing. Each 16-byte block is
  combined with the previous ciphertext block (the IV for the first) and encrypted.
\<close>

function cbc_encrypt :: "(bytes \<Rightarrow> bytes) \<Rightarrow> bytes \<Rightarrow> bytes \<Rightarrow> bytes" where
  "cbc_encrypt E prev pt =
     (if pt = [] then []
      else let c = E (xor_bytes (take BlockSize pt) prev)
           in c @ cbc_encrypt E c (drop BlockSize pt))"
  by pat_completeness auto
termination
  by (relation "measure (\<lambda>(E, prev, pt). length pt)") (auto simp: BlockSize_def)

declare cbc_encrypt.simps [simp del]

text \<open>
  Modelled from the spec: chained-block decryption is missing. Each 16-byte block is
  decrypted and combined with the previous ciphertext block (the IV for the first).
\<close>

function cbc_decrypt :: "(bytes \<Rightarrow> bytes) \<Rightarrow> bytes \<Rightarrow> bytes \<Rightarrow> bytes" where
  "cbc_decrypt D prev ct =
     (if ct = [] then []
      else let c = take BlockSize ct
           in xor_bytes (D c) prev @ cbc_decrypt D c (drop BlockSize ct))"
  by pat_completeness auto
termination
  by (relation "measure (\<lambda>(D, prev, ct). length ct)") (auto simp: BlockSize_def)

declare cbc_decrypt.simps [simp del]

text \<open>
  Modelled from the spec: \<^verbatim>\<open>aescbc.Encrypt\<close> is missing. It pads the plaintext and
  encrypts it in chained-block mode; a key that is not 16, 24 or 32 bytes long is an
  encryption error.
\<close>

definition aescbc_Encrypt :: "block_fn \<Rightarrow> bytes \<Rightarrow> bytes \<Rightarrow> bytes \<Rightarrow> error + bytes" where
  "aescbc_Encrypt E k v plaintext =
     (if length k \<noteq> 16 \<and> length k \<noteq> 24 \<and> length k \<noteq> 32 then Inl EncryptionError
      else Inr (cbc_encrypt (E k) v (pkcs7_Pad plaintext BlockSize)))"

text \<open>
  Modelled from the spec: \<^verbatim>\<open>aescbc.Decrypt\<close> is missing. A ciphertext whose length is not
  a multiple of the block size is a decryption error; otherwise the blocks are decrypted
  and the padding removed.
\<close>

definition aescbc_Decrypt :: "block_fn \<Rightarrow> bytes \<Rightarrow> bytes \<Rightarrow> bytes \<Rightarrow> error + bytes" where
  "aescbc_Decrypt D k v ciphertext =
     (if length ciphertext mod BlockSize \<noteq> 0 then Inl DecryptionError
      else pkcs7_Unpad (cbc_decrypt (D k) v ciphertext))"

subsection \<open>Key derivation\<close>

record derivedAESKeys =
  key :: bytes
  hmacKey :: bytes
  iv :: bytes

text \<open>
  The function returns the three slices of \<^verbatim>\<open>keymatter\<close> together with the error of
  \<^verbatim>\<open>io.ReadFull\<close>, also when the read failed. The slice bounds 32 and 64 are within the
  80 bytes of the buffer.
\<close>

definition deriveAESKeys :: "hkdf_fn \<Rightarrow> bytes \<Rightarrow> bytes \<Rightarrow> derivedAESKeys \<times> error option" where
  "deriveAESKeys HKDFSHA256 info k =
     (let hkdf = HKDFSHA256 k [] info;
          keymatter = replicate 80 0;
          (keymatter, n, err) = ReadFull hkdf keymatter
      in (\<lparr>key = take 32 keymatter,
           hmacKey = take (64 - 32) (drop 32 keymatter),
           iv = drop 64 keymatter\<rparr>, err))"

subsection \<open>The cipher\<close>

record AESSHA256 =
  kdfInfo :: bytes

definition NewAESSHA256 :: "bytes \<Rightarrow> AESSHA256" where
  "NewAESSHA256 info = \<lparr>kdfInfo = info\<rparr>"

definition AESSHA256_Encrypt ::
  "hkdf_fn \<Rightarrow> block_fn \<Rightarrow> AESSHA256 \<Rightarrow> bytes \<Rightarrow> bytes \<Rightarrow> error + bytes" where
  "AESSHA256_Encrypt HKDFSHA256 E c k plaintext =
     (case deriveAESKeys HKDFSHA256 (kdfInfo c) k of
        (keys, Some err) \<Rightarrow> Inl err
      | (keys, None) \<Rightarrow> aescbc_Encrypt E (key keys) (iv keys) plaintext)"

definition AESSHA256_Decrypt ::
  "hkdf_fn \<Rightarrow> block_fn \<Rightarrow> AESSHA256 \<Rightarrow> bytes \<Rightarrow> bytes \<Rightarrow> error + bytes" where
  "AESSHA256_Decrypt HKDFSHA256 D c k ciphertext =
     (case deriveAESKeys HKDFSHA256 (kdfInfo c) k of
        (keys, Some err) \<Rightarrow> Inl err
      | (keys, None) \<Rightarrow> aescbc_Decrypt D (key keys) (iv keys) ciphertext)"

definition AESSHA256_MAC ::
  "hkdf_fn \<Rightarrow> hmac_fn \<Rightarrow> AESSHA256 \<Rightarrow> bytes \<Rightarrow> bytes \<Rightarrow> error + bytes" where
  "AESSHA256_MAC HKDFSHA256 HMACSHA256 c k message =
     (case deriveAESKeys HKDFSHA256 (kdfInfo c) k of
        (keys, Some err) \<Rightarrow> Inl err
      | (keys, None) \<Rightarrow> Inr (HMACSHA256 (hmacKey keys) message))"

text \<open>
  \<^verbatim>\<open>Verify\<close> returns \<^verbatim>\<open>(bool, error)\<close> or panics: the slice expression
  \<^verbatim>\<open>mac[:len(givenMAC)]\<close> is checked against the capacity of \<^verbatim>\<open>mac\<close> at run time. The tag
  is the slice the hash allocates for its sum, whose capacity is its length.
\<close>

datatype 'a outcome = Panic | Return 'a

definition slice_to :: "bytes \<Rightarrow> nat \<Rightarrow> bytes outcome" where
  "slice_to b n = (if length b < n then Panic else Return (take n b))"

definition AESSHA256_Verify ::
  "hkdf_fn \<Rightarrow> hmac_fn \<Rightarrow> AESSHA256 \<Rightarrow> bytes \<Rightarrow> bytes \<Rightarrow> bytes \<Rightarrow> (bool \<times> error option) outcome" where
  "AESSHA256_Verify HKDFSHA256 HMACSHA256 c k message givenMAC =
     (case AESSHA256_MAC HKDFSHA256 HMACSHA256 c k message of
        Inl err \<Rightarrow> Return (False, Some err)
      | Inr mac \<Rightarrow>
          (case slice_to mac (length givenMAC) of
             Panic \<Rightarrow> Panic
           | Return m \<Rightarrow> Return (bytes_Equal givenMAC m, None)))"

subsection \<open>Example primitives\<close>

text \<open>
  Simple instances of the parameters, for evaluating the cipher on concrete inputs: a
  reader of 8160 bytes (the most HKDF-SHA256 delivers), a 32-byte tag, and an invertible
  map on blocks.
\<close>

definition example_hkdf :: hkdf_fn where
  "example_hkdf k salt info = (replicate 8160 (of_nat (length k + length info)), EOF)"

definition example_hmac :: hmac_fn where
  "example_hmac k m = replicate 32 (of_nat (length k + length m))"

definition example_block_encrypt :: block_fn where
  "example_block_encrypt k b = map (\<lambda>x. x + of_nat (length k)) b"

definition example_block_decrypt :: block_fn where
  "example_block_decrypt k b = map (\<lambda>x. x - of_nat (length k)) b"

section \<open>Pickling: layout and round trip\<close>

lemma KeyPair_Pickle_eq:
  "Curve25519KeyPair_PickleLibOlm c enc =
     enc @ (if length (PublicKey c) = 32 then PublicKey c else replicate 32 0)
         @ (if length (PrivateKey c) = 32 then PrivateKey c else replicate 32 0)"
  by (simp add: Curve25519KeyPair_PickleLibOlm_def Curve25519PublicKey_PickleLibOlm_def
      Write_def WriteEmptyBytes_def Curve25519PrivateKeyLength_def Curve25519PublicKeyLength_def)

text \<open>
  Claim C2. For every key pair, \<^verbatim>\<open>PickleLibOlm\<close> appends exactly 64 bytes to the encoder:
  32 bytes for the public key followed by 32 bytes for the private key, a field whose
  length is not 32 (an absent field included) being written as 32 zero bytes. The length
  written is the same with the private key removed.
\<close>

theorem Curve25519KeyPair_Pickle_layout:
  "\<exists>pub priv. Curve25519KeyPair_PickleLibOlm c enc = enc @ pub @ priv
     \<and> length pub = 32 \<and> length priv = 32
     \<and> pub = (if length (PublicKey c) = 32 then PublicKey c else replicate 32 0)
     \<and> priv = (if length (PrivateKey c) = 32 then PrivateKey c else replicate 32 0)
     \<and> length (Curve25519KeyPair_PickleLibOlm c enc) = length enc + 64
     \<and> length (Curve25519KeyPair_PickleLibOlm (c\<lparr>PrivateKey := []\<rparr>) enc)
         = length (Curve25519KeyPair_PickleLibOlm c enc)"
  by (simp add: KeyPair_Pickle_eq)

theorem Curve25519KeyPair_Pickle_layout_witness:
  "\<exists>pub priv. Curve25519KeyPair_PickleLibOlm \<lparr>PrivateKey = [], PublicKey = replicate 32 9\<rparr> [1, 2] =
       [1, 2] @ pub @ priv
     \<and> length pub = 32 \<and> length priv = 32
     \<and> pub = (if length (PublicKey \<lparr>PrivateKey = [], PublicKey = replicate 32 9\<rparr>) = 32
              then PublicKey \<lparr>PrivateKey = [], PublicKey = replicate 32 9\<rparr> else replicate 32 0)
     \<and> priv = (if length (PrivateKey \<lparr>PrivateKey = [], PublicKey = replicate 32 9\<rparr>) = 32
              then PrivateKey \<lparr>PrivateKey = [], PublicKey = replicate 32 9\<rparr> else replicate 32 0)
     \<and> length (Curve25519KeyPair_PickleLibOlm \<lparr>PrivateKey = [], PublicKey = replicate 32 9\<rparr> [1, 2]) =
         length [1, 2 :: byte] + 64
     \<and> length (Curve25519KeyPair_PickleLibOlm
           (\<lparr>PrivateKey = [], PublicKey = replicate 32 9\<rparr>\<lparr>PrivateKey := []\<rparr>) [1, 2])
         = length (Curve25519KeyPair_PickleLibOlm \<lparr>PrivateKey = [], PublicKey = replicate 32 9\<rparr> [1, 2])"
  by (rule Curve25519KeyPair_Pickle_layout)

lemma be32_roundtrip:
  "push_bit 24 (ucast (ucast (drop_bit 24 v :: 32 word) :: 8 word)) OR
   push_bit 16 (ucast (ucast (drop_bit 16 v :: 32 word) :: 8 word)) OR
   push_bit 8 (ucast (ucast (drop_bit 8 v :: 32 word) :: 8 word)) OR
   ucast (ucast v :: 8 word) = (v :: 32 word)"
proof (rule bit_word_eqI)
  fix n :: nat
  assume "n < LENGTH(32)"
  then have n: "n < 32" by simp
  consider "n < 8" | "8 \<le> n" "n < 16" | "16 \<le> n" "n < 24" | "24 \<le> n" "n < 32"
    using n by linarith
  then show "bit (push_bit 24 (ucast (ucast (drop_bit 24 v :: 32 word) :: 8 word)) OR
      push_bit 16 (ucast (ucast (drop_bit 16 v :: 32 word) :: 8 word)) OR
      push_bit 8 (ucast (ucast (drop_bit 8 v :: 32 word) :: 8 word)) OR
      ucast (ucast v :: 8 word) :: 32 word) n = bit v n"
    by cases (auto simp: bit_simps)
qed

lemma UnpickleBytes_field:
  "length b = n \<Longrightarrow>
   UnpickleBytes (b @ rest) n = Inr (if b = replicate n 0 then [] else b, n)"
  by (simp add: UnpickleBytes_def isZeroByteSlice_def)

lemma KeyPair_Unpickle_64:
  "length pub = 32 \<Longrightarrow> length priv = 32 \<Longrightarrow>
   Curve25519KeyPair_UnpickleLibOlm c (pub @ priv @ rest) =
     (c\<lparr>PublicKey := (if pub = replicate 32 0 then [] else pub),
        PrivateKey := (if priv = replicate 32 0 then [] else priv)\<rparr>, 64, None)"
  by (simp add: Curve25519KeyPair_UnpickleLibOlm_def Curve25519PublicKey_UnpickleLibOlm_def
      UnpickleBytes_field Curve25519PrivateKeyLength_def Curve25519PublicKeyLength_def)

lemma OneTimeKey_Pickle_eq:
  "OneTimeKey_PickleLibOlm x enc =
     enc @ WriteUInt32 [] (ID x) @ WriteBool [] (Published x)
         @ Curve25519KeyPair_PickleLibOlm (Key x) []"
  by (simp add: OneTimeKey_PickleLibOlm_def KeyPair_Pickle_eq WriteUInt32_def WriteBool_def)

lemma OneTimeKey_Unpickle_fields:
  assumes "length pub = 32" and "length priv = 32"
  shows "OneTimeKey_UnpickleLibOlm c (WriteUInt32 [] i @ WriteBool [] p @ pub @ priv @ rest) =
      (c\<lparr>ID := i, Published := p,
         Key := (Key c)\<lparr>PublicKey := (if pub = replicate 32 0 then [] else pub),
                         PrivateKey := (if priv = replicate 32 0 then [] else priv)\<rparr>\<rparr>,
       69, None)"
proof -
  have b: "UnpickleBool ((if p then 1 else 0) # pub @ priv @ rest) = Inr (p, 1)"
    by (simp add: UnpickleBool_def)
  show ?thesis
    unfolding OneTimeKey_UnpickleLibOlm_def
    by (simp add: UnpickleUInt32_def WriteUInt32_def be32_roundtrip WriteBool_def b
        KeyPair_Unpickle_64 [OF assms])
qed

lemma OneTimeKey_Unpickle_Pickle:
  assumes "length (PublicKey (Key x)) = 32" and "length (PrivateKey (Key x)) = 32"
  shows "OneTimeKey_UnpickleLibOlm c (OneTimeKey_PickleLibOlm x [] @ rest) =
      (c\<lparr>ID := ID x, Published := Published x,
         Key := (Key c)\<lparr>
           PublicKey := (if PublicKey (Key x) = replicate 32 0 then [] else PublicKey (Key x)),
           PrivateKey := (if PrivateKey (Key x) = replicate 32 0 then [] else PrivateKey (Key x))\<rparr>\<rparr>,
       69, None)"
proof -
  have p: "OneTimeKey_PickleLibOlm x [] @ rest =
      WriteUInt32 [] (ID x) @ WriteBool [] (Published x)
        @ PublicKey (Key x) @ PrivateKey (Key x) @ rest"
    using assms by (simp add: OneTimeKey_Pickle_eq KeyPair_Pickle_eq)
  show ?thesis
    by (simp only: p OneTimeKey_Unpickle_fields [OF assms])
qed

lemma OneTimeKey_Pickle_length:
  "length (OneTimeKey_PickleLibOlm x []) = 69"
  by (simp add: OneTimeKey_Pickle_eq KeyPair_Pickle_eq WriteUInt32_def WriteBool_def)

text \<open>
  Claim C3, as stated, fails: a one-time key whose private half is 32 zero bytes (the
  scalar of the Curve25519 test vector, which \<^verbatim>\<open>Curve25519GenerateFromPrivate\<close> accepts;
  the public half below is the public key of that vector) has both halves of 32 bytes, yet
  its pickle is unpickled to a record that is not \<^verbatim>\<open>Equal\<close> to it: the zero-filled private
  field is read back as absent.
\<close>

theorem OneTimeKey_roundtrip_counterexample:
  "length (PublicKey (Key \<lparr>ID = 1, Published = False,
       Key = \<lparr>PrivateKey = replicate 32 0,
              PublicKey = [0x2f, 0xe5, 0x7d, 0xa3, 0x47, 0xcd, 0x62, 0x43,
                           0x15, 0x28, 0xda, 0xac, 0x5f, 0xbb, 0x29, 0x07,
                           0x30, 0xff, 0xf6, 0x84, 0xaf, 0xc4, 0xcf, 0xc2,
                           0xed, 0x90, 0x99, 0x5f, 0x58, 0xcb, 0x3b, 0x74]\<rparr>\<rparr>)) = 32
   \<and> length (PrivateKey (Key \<lparr>ID = 1, Published = False,
       Key = \<lparr>PrivateKey = replicate 32 0,
              PublicKey = [0x2f, 0xe5, 0x7d, 0xa3, 0x47, 0xcd, 0x62, 0x43,
                           0x15, 0x28, 0xda, 0xac, 0x5f, 0xbb, 0x29, 0x07,
                           0x30, 0xff, 0xf6, 0x84, 0xaf, 0xc4, 0xcf, 0xc2,
                           0xed, 0x90, 0x99, 0x5f, 0x58, 0xcb, 0x3b, 0x74]\<rparr>\<rparr>)) = 32
   \<and> \<not> OneTimeKey_Equal
        (fst (OneTimeKey_UnpickleLibOlm
           \<lparr>ID = 0, Published = False, Key = \<lparr>PrivateKey = [], PublicKey = []\<rparr>\<rparr>
           (OneTimeKey_PickleLibOlm \<lparr>ID = 1, Published = False,
              Key = \<lparr>PrivateKey = replicate 32 0,
                     PublicKey = [0x2f, 0xe5, 0x7d, 0xa3, 0x47, 0xcd, 0x62, 0x43,
                                  0x15, 0x28, 0xda, 0xac, 0x5f, 0xbb, 0x29, 0x07,
                                  0x30, 0xff, 0xf6, 0x84, 0xaf, 0xc4, 0xcf, 0xc2,
                                  0xed, 0x90, 0x99, 0x5f, 0x58, 0xcb, 0x3b, 0x74]\<rparr>\<rparr> [])))
        \<lparr>ID = 1, Published = False,
         Key = \<lparr>PrivateKey = replicate 32 0,
                PublicKey = [0x2f, 0xe5, 0x7d, 0xa3, 0x47, 0xcd, 0x62, 0x43,
                             0x15, 0x28, 0xda, 0xac, 0x5f, 0xbb, 0x29, 0x07,
                             0x30, 0xff, 0xf6, 0x84, 0xaf, 0xc4, 0xcf, 0xc2,
                             0xed, 0x90, 0x99, 0x5f, 0x58, 0xcb, 0x3b, 0x74]\<rparr>\<rparr>"
proof -
  let ?x = "\<lparr>ID = 1, Published = False,
      Key = \<lparr>PrivateKey = replicate 32 (0 :: byte),
             PublicKey = [0x2f, 0xe5, 0x7d, 0xa3, 0x47, 0xcd, 0x62, 0x43,
                          0x15, 0x28, 0xda, 0xac, 0x5f, 0xbb, 0x29, 0x07,
                          0x30, 0xff, 0xf6, 0x84, 0xaf, 0xc4, 0xcf, 0xc2,
                          0xed, 0x90, 0x99, 0x5f, 0x58, 0xcb, 0x3b, 0x74 :: byte]\<rparr>\<rparr>"
  have h1: "length (PublicKey (Key ?x)) = 32" and h2: "length (PrivateKey (Key ?x)) = 32"
    by simp_all
  have "PrivateKey (Key (fst (OneTimeKey_UnpickleLibOlm
      \<lparr>ID = 0, Published = False, Key = \<lparr>PrivateKey = [], PublicKey = []\<rparr>\<rparr>
      (OneTimeKey_PickleLibOlm ?x [] @ [])))) = []"
    unfolding OneTimeKey_Unpickle_Pickle [OF h1 h2] by simp
  then have "\<not> OneTimeKey_Equal (fst (OneTimeKey_UnpickleLibOlm
      \<lparr>ID = 0, Published = False, Key = \<lparr>PrivateKey = [], PublicKey = []\<rparr>\<rparr>
      (OneTimeKey_PickleLibOlm ?x []))) ?x"
    by (simp add: OneTimeKey_Equal_def Curve25519PrivateKey_Equal_def bytes_Equal_def)
  with h1 h2 show ?thesis by blast
qed

text \<open>
  Claim C3, amended. For a one-time key \<open>x\<close> whose key pair has both halves of 32 bytes,
  \<^verbatim>\<open>UnpickleLibOlm\<close> applied to the bytes that \<^verbatim>\<open>PickleLibOlm\<close> produced (whatever follows
  them in the buffer, and whatever the receiver held before) succeeds and reports 69
  bytes read: 4 for the id, 1 for the flag, 64 for the key pair. The record it yields is
  \<^verbatim>\<open>Equal\<close> to \<open>x\<close> exactly when neither half of the key pair is 32 zero bytes.
\<close>

theorem OneTimeKey_roundtrip:
  assumes "length (PublicKey (Key x)) = 32" and "length (PrivateKey (Key x)) = 32"
  shows "\<exists>y. OneTimeKey_UnpickleLibOlm c (OneTimeKey_PickleLibOlm x [] @ rest) = (y, 69, None)
           \<and> length (OneTimeKey_PickleLibOlm x []) = 69
           \<and> OneTimeKey_Equal y x =
               (PublicKey (Key x) \<noteq> replicate 32 0 \<and> PrivateKey (Key x) \<noteq> replicate 32 0)"
  unfolding OneTimeKey_Unpickle_Pickle [OF assms] using assms
  by (auto simp: OneTimeKey_Pickle_length OneTimeKey_Equal_def Curve25519PrivateKey_Equal_def
      Curve25519PublicKey_Equal_def bytes_Equal_def)

theorem OneTimeKey_roundtrip_witness:
  "\<exists>y. OneTimeKey_UnpickleLibOlm \<lparr>ID = 0, Published = False, Key = \<lparr>PrivateKey = [], PublicKey = []\<rparr>\<rparr>
      (OneTimeKey_PickleLibOlm
         \<lparr>ID = 1, Published = False,
          Key = \<lparr>PrivateKey = replicate 32 7, PublicKey = replicate 32 9\<rparr>\<rparr> [] @ [])
      = (y, 69, None)
    \<and> OneTimeKey_Equal y
        \<lparr>ID = 1, Published = False, Key = \<lparr>PrivateKey = replicate 32 7, PublicKey = replicate 32 9\<rparr>\<rparr>"
proof -
  let ?x = "\<lparr>ID = 1, Published = False,
      Key = \<lparr>PrivateKey = replicate 32 (7 :: byte), PublicKey = replicate 32 (9 :: byte)\<rparr>\<rparr>"
  have h1: "length (PublicKey (Key ?x)) = 32" and h2: "length (PrivateKey (Key ?x)) = 32"
    by simp_all
  show ?thesis
    using OneTimeKey_roundtrip [OF h1 h2,
        of "\<lparr>ID = 0, Published = False, Key = \<lparr>PrivateKey = [], PublicKey = []\<rparr>\<rparr>" "[]"]
    by auto
qed

text \<open>
  Claim C10, as stated, fails: unpickling the pickle of a pair without private key leaves
  the private key absent, not 32 zero bytes, and \<^verbatim>\<open>Curve25519PrivateKey.Equal\<close> holds
  between it and the original.
\<close>

theorem Curve25519KeyPair_Unpickle_private_counterexample:
  "PrivateKey (fst (Curve25519KeyPair_UnpickleLibOlm \<lparr>PrivateKey = [], PublicKey = []\<rparr>
       (Curve25519KeyPair_PickleLibOlm \<lparr>PrivateKey = [], PublicKey = replicate 32 9\<rparr> []))) = []
   \<and> PrivateKey (fst (Curve25519KeyPair_UnpickleLibOlm \<lparr>PrivateKey = [], PublicKey = []\<rparr>
       (Curve25519KeyPair_PickleLibOlm \<lparr>PrivateKey = [], PublicKey = replicate 32 9\<rparr> [])))
       \<noteq> replicate 32 0
   \<and> Curve25519PrivateKey_Equal
       (PrivateKey (fst (Curve25519KeyPair_UnpickleLibOlm \<lparr>PrivateKey = [], PublicKey = []\<rparr>
          (Curve25519KeyPair_PickleLibOlm \<lparr>PrivateKey = [], PublicKey = replicate 32 9\<rparr> []))))
       (PrivateKey \<lparr>PrivateKey = [], PublicKey = replicate 32 9\<rparr>)"
proof -
  have "Curve25519KeyPair_UnpickleLibOlm \<lparr>PrivateKey = [], PublicKey = []\<rparr>
      (replicate 32 9 @ replicate 32 0 @ []) =
      (\<lparr>PrivateKey = [], PublicKey = replicate 32 9\<rparr>, 64, None)"
    using KeyPair_Unpickle_64
      [of "replicate 32 9" "replicate 32 0" "\<lparr>PrivateKey = [], PublicKey = []\<rparr>" "[]"]
    by simp
  then show ?thesis
    by (simp add: KeyPair_Pickle_eq Curve25519PrivateKey_Equal_def bytes_Equal_def)
qed

text \<open>
  Claim C10, amended. When \<^verbatim>\<open>Curve25519KeyPair.UnpickleLibOlm\<close> succeeds, the private key
  it leaves in the receiver is the 32 bytes read at offset 32, unless they are all zero:
  then it is the absent value. Hence unpickling the pickle of a pair without private key
  gives a pair whose private key is absent, which \<^verbatim>\<open>Curve25519PrivateKey.Equal\<close> does not
  tell apart from the original.
\<close>

theorem Curve25519KeyPair_Unpickle_private:
  "(Curve25519KeyPair_UnpickleLibOlm c v = (c', n, None) \<longrightarrow>
      64 \<le> length v \<and> n = 64
      \<and> PrivateKey c' =
          (if take 32 (drop 32 v) = replicate 32 0 then [] else take 32 (drop 32 v)))
   \<and> (PrivateKey kp = [] \<longrightarrow>
        (\<exists>c''. Curve25519KeyPair_UnpickleLibOlm c (Curve25519KeyPair_PickleLibOlm kp []) = (c'', 64, None)
           \<and> PrivateKey c'' = []
           \<and> Curve25519PrivateKey_Equal (PrivateKey c'') (PrivateKey kp)))"
proof (intro conjI impI)
  assume u: "Curve25519KeyPair_UnpickleLibOlm c v = (c', n, None)"
  have len: "64 \<le> length v"
  proof (rule ccontr)
    assume "\<not> 64 \<le> length v"
    then have "snd (snd (Curve25519KeyPair_UnpickleLibOlm c v)) \<noteq> None"
      by (auto simp: Curve25519KeyPair_UnpickleLibOlm_def Curve25519PublicKey_UnpickleLibOlm_def
          UnpickleBytes_def Curve25519PrivateKeyLength_def Curve25519PublicKeyLength_def Let_def)
    with u show False by simp
  qed
  define pub where "pub = take 32 v"
  define priv where "priv = take 32 (drop 32 v)"
  define rest where "rest = drop 64 v"
  have lp: "length pub = 32" "length priv = 32"
    using len by (simp_all add: pub_def priv_def)
  have "v = pub @ drop 32 v"
    by (simp add: pub_def)
  moreover have "drop 32 v = priv @ drop 32 (drop 32 v)"
    unfolding priv_def by (rule append_take_drop_id [symmetric])
  ultimately have v: "v = pub @ priv @ rest"
    by (simp add: rest_def)
  show "64 \<le> length v" by (rule len)
  show "n = 64"
    using u KeyPair_Unpickle_64 [OF lp, of c rest] by (simp add: v)
  show "PrivateKey c' =
      (if take 32 (drop 32 v) = replicate 32 0 then [] else take 32 (drop 32 v))"
    using u KeyPair_Unpickle_64 [OF lp, of c rest] unfolding priv_def [symmetric]
    by (auto simp: v)
next
  assume a: "PrivateKey kp = []"
  let ?pub = "if length (PublicKey kp) = 32 then PublicKey kp else replicate 32 0"
  have p: "Curve25519KeyPair_PickleLibOlm kp [] = ?pub @ replicate 32 0 @ []"
    by (simp add: KeyPair_Pickle_eq a)
  have "Curve25519KeyPair_UnpickleLibOlm c (?pub @ replicate 32 0 @ []) =
      (c\<lparr>PublicKey := (if ?pub = replicate 32 0 then [] else ?pub),
         PrivateKey := (if replicate 32 0 = replicate 32 (0 :: byte) then [] else replicate 32 0)\<rparr>,
       64, None)"
    by (rule KeyPair_Unpickle_64) simp_all
  then show "\<exists>c''. Curve25519KeyPair_UnpickleLibOlm c (Curve25519KeyPair_PickleLibOlm kp []) =
             (c'', 64, None)
           \<and> PrivateKey c'' = []
           \<and> Curve25519PrivateKey_Equal (PrivateKey c'') (PrivateKey kp)"
    unfolding p by (simp add: a Curve25519PrivateKey_Equal_def bytes_Equal_def)
qed

theorem Curve25519KeyPair_Unpickle_private_witness:
  "(64 \<le> length (replicate 32 9 @ replicate 32 (0 :: byte)) \<and> (64 :: nat) = 64
    \<and> PrivateKey \<lparr>PrivateKey = [], PublicKey = replicate 32 9\<rparr> =
        (if take 32 (drop 32 (replicate 32 9 @ replicate 32 0)) = replicate 32 (0 :: byte) then []
         else take 32 (drop 32 (replicate 32 9 @ replicate 32 0))))
   \<and> (\<exists>c''. Curve25519KeyPair_UnpickleLibOlm \<lparr>PrivateKey = [], PublicKey = []\<rparr>
         (Curve25519KeyPair_PickleLibOlm \<lparr>PrivateKey = [], PublicKey = replicate 32 9\<rparr> []) =
         (c'', 64, None)
       \<and> PrivateKey c'' = []
       \<and> Curve25519PrivateKey_Equal (PrivateKey c'')
            (PrivateKey \<lparr>PrivateKey = [], PublicKey = replicate 32 9\<rparr>))"
proof -
  have h1: "Curve25519KeyPair_UnpickleLibOlm \<lparr>PrivateKey = [], PublicKey = []\<rparr>
      (replicate 32 9 @ replicate 32 0) =
      (\<lparr>PrivateKey = [], PublicKey = replicate 32 9\<rparr>, 64, None)"
    using KeyPair_Unpickle_64 [of "replicate 32 9" "replicate 32 0"
        "\<lparr>PrivateKey = [], PublicKey = []\<rparr>" "[]"]
    by simp
  have h2: "PrivateKey \<lparr>PrivateKey = [], PublicKey = replicate 32 (9 :: byte)\<rparr> = []"
    by simp
  show ?thesis
    using Curve25519KeyPair_Unpickle_private
      [of "\<lparr>PrivateKey = [], PublicKey = []\<rparr>" "replicate 32 9 @ replicate 32 0"
          "\<lparr>PrivateKey = [], PublicKey = replicate 32 9\<rparr>" 64
          "\<lparr>PrivateKey = [], PublicKey = replicate 32 9\<rparr>"]
      h1 h2
    by blast
qed

section \<open>Key derivation\<close>

lemma ReadFull_length: "length (fst (ReadFull r buf)) = length buf"
  by (cases r) (auto simp: ReadFull_def)

lemma deriveAESKeys_ok:
  assumes "80 \<le> length (fst (H s [] info))"
  shows "\<exists>ks. deriveAESKeys H info s = (ks, None)
            \<and> length (key ks) = 32 \<and> length (hmacKey ks) = 32 \<and> length (iv ks) = 16"
proof -
  obtain d e where r: "H s [] info = (d, e)" by (cases "H s [] info")
  with assms have "80 \<le> length d" by simp
  then show ?thesis
    by (simp add: deriveAESKeys_def r ReadFull_def)
qed

text \<open>
  Claim C1. For every master secret and every context, \<^verbatim>\<open>deriveAESKeys\<close> reads into a
  buffer of exactly 80 bytes from the HKDF-SHA256 reader made with the secret, an empty
  salt and the context, and returns that buffer cut in fixed order: the cipher key is
  bytes 0 to 31, the MAC key bytes 32 to 63 and the IV bytes 64 to 79. The error returned
  is the one of the read, which is nil exactly when the reader delivered 80 bytes; the
  bytes read are the first bytes of the reader's stream.
\<close>

theorem deriveAESKeys_split:
  "\<exists>ks err km n. deriveAESKeys H info s = (ks, err)
     \<and> ReadFull (H s [] info) (replicate 80 0) = (km, n, err)
     \<and> length km = 80
     \<and> key ks = take 32 km \<and> hmacKey ks = take 32 (drop 32 km) \<and> iv ks = drop 64 km
     \<and> length (key ks) = 32 \<and> length (hmacKey ks) = 32 \<and> length (iv ks) = 16
     \<and> key ks @ hmacKey ks @ iv ks = km
     \<and> (err = None) = (80 \<le> length (fst (H s [] info)))
     \<and> take (length (fst (H s [] info))) km = take 80 (fst (H s [] info))"
proof -
  obtain d e where r: "H s [] info = (d, e)" by (cases "H s [] info")
  obtain km n err where rf: "ReadFull (d, e) (replicate 80 0) = (km, n, err)"
    by (cases "ReadFull (d, e) (replicate 80 0)")
  have l: "length km = 80"
    using ReadFull_length [of "(d, e)" "replicate 80 0"] rf by simp
  have e: "(err = None) = (80 \<le> length d)"
    and t: "take (length d) km = take 80 d"
    using rf by (auto simp: ReadFull_def min_def split: if_splits)
  have "drop 64 km = drop 32 (drop 32 km)"
    by simp
  then have cat: "take 32 km @ take 32 (drop 32 km) @ drop 64 km = km"
    by (simp only: append_take_drop_id)
  show ?thesis
    using l e t cat by (simp add: deriveAESKeys_def r rf)
qed

theorem deriveAESKeys_split_witness:
  "\<exists>ks err km n. deriveAESKeys example_hkdf [0x54, 0x45, 0x53, 0x54] [1, 2, 3] = (ks, err)
     \<and> ReadFull (example_hkdf [1, 2, 3] [] [0x54, 0x45, 0x53, 0x54]) (replicate 80 0) = (km, n, err)
     \<and> length km = 80
     \<and> key ks = take 32 km \<and> hmacKey ks = take 32 (drop 32 km) \<and> iv ks = drop 64 km
     \<and> length (key ks) = 32 \<and> length (hmacKey ks) = 32 \<and> length (iv ks) = 16
     \<and> key ks @ hmacKey ks @ iv ks = km
     \<and> (err = None) = (80 \<le> length (fst (example_hkdf [1, 2, 3] [] [0x54, 0x45, 0x53, 0x54])))
     \<and> take (length (fst (example_hkdf [1, 2, 3] [] [0x54, 0x45, 0x53, 0x54]))) km =
         take 80 (fst (example_hkdf [1, 2, 3] [] [0x54, 0x45, 0x53, 0x54]))"
  by (rule deriveAESKeys_split [where H = example_hkdf])

section \<open>Encryption and decryption\<close>

lemma xor_bytes_cancel:
  "length a = length b \<Longrightarrow> xor_bytes (xor_bytes a b) b = a"
  unfolding xor_bytes_def
  by (induction a b rule: list_induct2) (simp_all add: xor.assoc)

lemma length_xor_bytes: "length (xor_bytes a b) = min (length a) (length b)"
  by (simp add: xor_bytes_def)

lemma cbc_encrypt_Nil: "cbc_encrypt E prev [] = []"
  by (simp add: cbc_encrypt.simps)

lemma cbc_decrypt_Nil: "cbc_decrypt D prev [] = []"
  by (simp add: cbc_decrypt.simps)

lemma cbc_encrypt_step:
  "pt \<noteq> [] \<Longrightarrow> cbc_encrypt E prev pt =
     E (xor_bytes (take 16 pt) prev) @ cbc_encrypt E (E (xor_bytes (take 16 pt) prev)) (drop 16 pt)"
  by (subst cbc_encrypt.simps) (simp add: BlockSize_def Let_def)

lemma cbc_decrypt_step:
  "length c = 16 \<Longrightarrow> cbc_decrypt D prev (c @ ct) = xor_bytes (D c) prev @ cbc_decrypt D c ct"
  by (subst cbc_decrypt.simps) (auto simp: BlockSize_def Let_def)

lemma cbc_encrypt_length:
  "(\<And>b. length b = 16 \<Longrightarrow> length (E b) = 16) \<Longrightarrow>
   length prev = 16 \<Longrightarrow> 16 dvd length pt \<Longrightarrow>
   length (cbc_encrypt E prev pt) = length pt"
proof (induction E prev pt rule: cbc_encrypt.induct)
  case (1 E prev pt)
  note pres = "1.prems"(1)
  show ?case
  proof (cases "pt = []")
    case True
    then show ?thesis by (simp add: cbc_encrypt_Nil)
  next
    case False
    then have "0 < length pt" by simp
    with "1.prems" have len: "16 \<le> length pt"
      by (simp add: dvd_imp_le)
    let ?c = "E (xor_bytes (take 16 pt) prev)"
    have lc: "length ?c = 16"
      using len "1.prems" by (simp add: length_xor_bytes)
    have rest: "16 dvd length (drop 16 pt)"
      using "1.prems" len by simp
    have "length (cbc_encrypt E ?c (drop 16 pt)) = length (drop 16 pt)"
      using "1.IH" [OF False refl pres] lc rest by (simp add: BlockSize_def)
    then show ?thesis
      using len lc by (simp add: cbc_encrypt_step [OF False])
  qed
qed

lemma cbc_roundtrip:
  "(\<And>b. length b = 16 \<Longrightarrow> length (E b) = 16 \<and> D (E b) = b) \<Longrightarrow>
   length prev = 16 \<Longrightarrow> 16 dvd length pt \<Longrightarrow>
   cbc_decrypt D prev (cbc_encrypt E prev pt) = pt"
proof (induction E prev pt rule: cbc_encrypt.induct)
  case (1 E prev pt)
  note inv = "1.prems"(1)
  show ?case
  proof (cases "pt = []")
    case True
    then show ?thesis by (simp add: cbc_encrypt_Nil cbc_decrypt_Nil)
  next
    case False
    then have "0 < length pt" by simp
    with "1.prems" have len: "16 \<le> length pt"
      by (simp add: dvd_imp_le)
    let ?b = "xor_bytes (take 16 pt) prev"
    let ?c = "E ?b"
    have lb: "length ?b = 16"
      using len "1.prems" by (simp add: length_xor_bytes)
    have lc: "length ?c = 16" and dc: "D ?c = ?b"
      using inv [OF lb] by simp_all
    have rest: "16 dvd length (drop 16 pt)"
      using "1.prems" len by simp
    have ih: "cbc_decrypt D ?c (cbc_encrypt E ?c (drop 16 pt)) = drop 16 pt"
      using "1.IH" [OF False refl inv] lc rest by (simp add: BlockSize_def)
    have enc: "cbc_encrypt E prev pt = ?c @ cbc_encrypt E ?c (drop 16 pt)"
      using False by (rule cbc_encrypt_step)
    have "cbc_decrypt D prev (?c @ cbc_encrypt E ?c (drop 16 pt)) =
        xor_bytes (D ?c) prev @ cbc_decrypt D ?c (cbc_encrypt E ?c (drop 16 pt))"
      using lc by (rule cbc_decrypt_step)
    also have "\<dots> = take 16 pt @ drop 16 pt"
      using len "1.prems" by (simp add: dc ih xor_bytes_cancel)
    finally show ?thesis
      by (simp add: enc)
  qed
qed

lemma pkcs7_Pad_dvd: "16 dvd length (pkcs7_Pad p BlockSize)"
  by (simp add: pkcs7_Pad_def BlockSize_def Let_def) presburger

lemma pkcs7_roundtrip: "pkcs7_Unpad (pkcs7_Pad p BlockSize) = Inr p"
proof -
  define n where "n = 16 - length p mod 16"
  have n: "0 < n" "n \<le> 16" by (simp_all add: n_def)
  have u: "unat (of_nat n :: byte) = n"
    using n by (simp add: unat_of_nat)
  have pad: "pkcs7_Pad p BlockSize = p @ replicate n (of_nat n)"
    by (simp add: pkcs7_Pad_def BlockSize_def n_def)
  have l: "last (p @ replicate n (of_nat n :: byte)) = of_nat n"
    using n by (cases n) simp_all
  show ?thesis
    unfolding pad pkcs7_Unpad_def using n
    by (simp add: l u BlockSize_def Let_def)
qed

lemma aescbc_roundtrip:
  assumes inv: "\<And>b. length b = 16 \<Longrightarrow> length (E k b) = 16 \<and> D k (E k b) = b"
    and k: "length k = 32" and v: "length v = 16"
  shows "\<exists>ct. aescbc_Encrypt E k v p = Inr ct \<and> aescbc_Decrypt D k v ct = Inr p"
proof -
  let ?pt = "pkcs7_Pad p BlockSize"
  let ?ct = "cbc_encrypt (E k) v ?pt"
  have enc: "aescbc_Encrypt E k v p = Inr ?ct"
    using k by (simp add: aescbc_Encrypt_def)
  have len: "length ?ct = length ?pt"
    using inv v pkcs7_Pad_dvd by (intro cbc_encrypt_length) auto
  have dec: "cbc_decrypt (D k) v ?ct = ?pt"
    using inv v pkcs7_Pad_dvd by (intro cbc_roundtrip) auto
  have m: "length ?ct mod BlockSize = 0"
    unfolding len using pkcs7_Pad_dvd [of p] by (simp add: BlockSize_def)
  have "aescbc_Decrypt D k v ?ct = Inr p"
    by (simp add: aescbc_Decrypt_def m dec pkcs7_roundtrip)
  with enc show ?thesis by simp
qed

lemma example_block_inverse:
  "length b = 16 \<Longrightarrow> length (example_block_encrypt k b) = 16
     \<and> example_block_decrypt k (example_block_encrypt k b) = b"
  by (simp add: example_block_encrypt_def example_block_decrypt_def comp_def)

text \<open>
  Claim C4. For every master secret \<open>s\<close>, cipher context \<open>c\<close> and plaintext \<open>p\<close>,
  encryption succeeds and decryption of its result with the same cipher and secret
  succeeds and returns \<open>p\<close>. The primitives are parameters: the key-derivation reader
  delivers the 80 bytes asked of it, and the block cipher's decryption inverts its
  encryption on 16-byte blocks.
\<close>

theorem AESSHA256_Decrypt_Encrypt:
  assumes "80 \<le> length (fst (H s [] (kdfInfo c)))"
    and "\<And>k b. length b = 16 \<Longrightarrow> length (E k b) = 16 \<and> D k (E k b) = b"
  shows "\<exists>ct. AESSHA256_Encrypt H E c s p = Inr ct \<and> AESSHA256_Decrypt H D c s ct = Inr p"
proof -
  obtain ks where ks: "deriveAESKeys H (kdfInfo c) s = (ks, None)"
    "length (key ks) = 32" "length (iv ks) = 16"
    using deriveAESKeys_ok [of H s "kdfInfo c"] assms(1) by blast
  obtain ct where "aescbc_Encrypt E (key ks) (iv ks) p = Inr ct"
    "aescbc_Decrypt D (key ks) (iv ks) ct = Inr p"
    using aescbc_roundtrip [of E "key ks" D "iv ks" p] assms(2) ks(2,3) by blast
  then show ?thesis
    by (simp add: AESSHA256_Encrypt_def AESSHA256_Decrypt_def ks(1))
qed

theorem AESSHA256_Decrypt_Encrypt_witness:
  "\<exists>ct. AESSHA256_Encrypt example_hkdf example_block_encrypt (NewAESSHA256 [0x54, 0x45, 0x53, 0x54])
           [1, 2, 3] [10, 20, 30, 40, 50] = Inr ct
      \<and> AESSHA256_Decrypt example_hkdf example_block_decrypt (NewAESSHA256 [0x54, 0x45, 0x53, 0x54])
           [1, 2, 3] ct = Inr [10, 20, 30, 40, 50]"
  by (rule AESSHA256_Decrypt_Encrypt
        [where H = example_hkdf and E = example_block_encrypt and D = example_block_decrypt])
     (simp_all add: example_hkdf_def example_block_inverse)

section \<open>Message authentication\<close>

lemma AESSHA256_MAC_ok:
  assumes "80 \<le> length (fst (H s [] (kdfInfo c)))"
  shows "\<exists>mk. AESSHA256_MAC H M c s m = Inr (M mk m)"
proof -
  obtain ks where ks: "deriveAESKeys H (kdfInfo c) s = (ks, None)"
    using deriveAESKeys_ok [of H s "kdfInfo c"] assms by blast
  then have "AESSHA256_MAC H M c s m = Inr (M (hmacKey ks) m)"
    by (simp add: AESSHA256_MAC_def)
  then show ?thesis by blast
qed



text \<open>
  Claim C9. For every master secret, message and given tag longer than 32 bytes,
  \<^verbatim>\<open>Verify\<close> panics on the slice expression instead of returning; with a given tag of at
  most 32 bytes it returns a boolean and a nil error. The primitives are parameters, as
  for claim C5.
\<close>

theorem AESSHA256_Verify_panic:
  assumes "80 \<le> length (fst (H s [] (kdfInfo c)))"
    and "\<And>k x. length (M k x) = 32"
  shows "(32 < length t \<longrightarrow> AESSHA256_Verify H M c s m t = Panic)
       \<and> (length t \<le> 32 \<longrightarrow> (\<exists>b. AESSHA256_Verify H M c s m t = Return (b, None)))"
proof -
  obtain mk where mac: "AESSHA256_MAC H M c s m = Inr (M mk m)"
    using AESSHA256_MAC_ok [of H s c M m] assms(1) by blast
  show ?thesis
    using assms(2)
    by (simp add: mac AESSHA256_Verify_def slice_to_def)
qed

theorem AESSHA256_Verify_panic_witness:
  "AESSHA256_Verify example_hkdf example_hmac (NewAESSHA256 [0x54, 0x45, 0x53, 0x54])
       [1, 2, 3] [7, 7] (replicate 33 0) = Panic
   \<and> (\<exists>b. AESSHA256_Verify example_hkdf example_hmac (NewAESSHA256 [0x54, 0x45, 0x53, 0x54])
       [1, 2, 3] [7, 7] (replicate 32 0) = Return (b, None))"
proof -
  have h: "80 \<le> length (fst (example_hkdf [1, 2, 3] []
      (kdfInfo (NewAESSHA256 [0x54, 0x45, 0x53, 0x54]))))"
    by (simp add: example_hkdf_def)
  have m: "\<And>k x. length (example_hmac k x) = 32"
    by (simp add: example_hmac_def)
  show ?thesis
    using AESSHA256_Verify_panic [where H = example_hkdf and M = example_hmac, OF h m,
        of "replicate 33 0" "[7, 7]"]
      AESSHA256_Verify_panic [where H = example_hkdf and M = example_hmac, OF h m,
        of "replicate 32 0" "[7, 7]"]
    by simp
qed

end
